theory Spec2Isabelle
  imports Main "HOL-Library.Word" "HOL-Library.Sublist"
begin

unbundle bit_operations_syntax

text \<open>
  apgcheck validates an APG package of NurOS: it extracts the xz-compressed tar archive
  into a scratch directory (\<^verbatim>\<open>extractTarXz\<close>), then checks that the directory holds
  the mandatory entries and that the metadata has the required fields
  (\<^verbatim>\<open>checkApgFileV1\<close>, \<^verbatim>\<open>checkApgFileV2\<close>, chosen by \<^verbatim>\<open>main\<close>). The functions are modelled
  from version 0.2.0 of the program; \<^verbatim>\<open>extractTarXz\<close> is the same text in version 0.1.0
  with the security patch.
\<close>

section \<open>The Go library functions the program calls\<close>

text \<open>
  apgcheck is a Linux tool (its scratch directory is \<^verbatim>\<open>/tmp/apgcheck-NNNNNNNN\<close>), so
  \<^verbatim>\<open>path/filepath\<close> is modelled as it behaves on Unix: the separator is \<^verbatim>\<open>/\<close>, there
  are no volume names. A Go \<^verbatim>\<open>string\<close> is a sequence of bytes, here a \<^typ>\<open>string\<close>;
  \<^verbatim>\<open>len\<close> counts bytes.
\<close>

subsection \<open>strings\<close>

definition HasPrefix :: "string \<Rightarrow> string \<Rightarrow> bool" where
  "HasPrefix s p = prefix p s"

definition HasSuffix :: "string \<Rightarrow> string \<Rightarrow> bool" where
  "HasSuffix s p = suffix p s"

definition Contains :: "string \<Rightarrow> string \<Rightarrow> bool" where
  "Contains s sub = sublist sub s"

definition ContainsAny :: "string \<Rightarrow> string \<Rightarrow> bool" where
  "ContainsAny s chars = list_ex (\<lambda>c. List.member chars c) s"

subsection \<open>path/filepath\<close>

definition Separator :: char where
  "Separator = CHR ''/''"

text \<open>The path elements of a string: the pieces between separators, empty ones included.\<close>

fun elements :: "string \<Rightarrow> string list" where
  "elements [] = [[]]"
| "elements (c # cs) =
     (if c = Separator then [] # elements cs
      else (case elements cs of [] \<Rightarrow> [[c]] | e # es \<Rightarrow> (c # e) # es))"

fun join_sep :: "string list \<Rightarrow> string" where
  "join_sep [] = []"
| "join_sep [e] = e"
| "join_sep (e # es) = e @ Separator # join_sep es"

text \<open>
  \<^verbatim>\<open>filepath.Clean\<close> reads the path element by element and keeps the elements written
  so far in a buffer. An empty element and \<^verbatim>\<open>.\<close> are dropped. A \<^verbatim>\<open>..\<close> removes the last
  element written, unless there is none to remove (the buffer is empty or holds only
  leading \<^verbatim>\<open>..\<close> elements): then a rooted path drops it and a relative path keeps it.
  \<open>clean_step\<close> is one such step; the buffer is the list of elements written, the last
  one first.
\<close>

definition clean_step :: "bool \<Rightarrow> string list \<Rightarrow> string \<Rightarrow> string list" where
  "clean_step rooted out e =
     (if e = [] \<or> e = ''.'' then out
      else if e = ''..'' then
        (case out of
           [] \<Rightarrow> if rooted then [] else [''..'']
         | t # ts \<Rightarrow> if t = ''..'' then (if rooted then out else ''..'' # out) else ts)
      else e # out)"

definition Clean :: "string \<Rightarrow> string" where
  "Clean path =
     (if path = [] then ''.''
      else
        let rooted = (hd path = Separator);
            out = rev (foldl (clean_step rooted) [] (elements path))
        in if rooted then Separator # join_sep out
           else if out = [] then ''.''
           else join_sep out)"

definition IsAbs :: "string \<Rightarrow> bool" where
  "IsAbs path = HasPrefix path ''/''"

text \<open>\<^verbatim>\<open>filepath.Join\<close>: leading empty elements are ignored, the rest is joined and cleaned.\<close>

definition Join :: "string list \<Rightarrow> string" where
  "Join elem =
     (case dropWhile (\<lambda>e. e = []) elem of
        [] \<Rightarrow> []
      | e # es \<Rightarrow> Clean (join_sep (e # es)))"

text \<open>
  \<^verbatim>\<open>filepath.Abs\<close>: an absolute path is cleaned; a relative one is joined onto the
  working directory, and the call fails when \<^verbatim>\<open>os.Getwd\<close> does (\<open>wd = None\<close>).
\<close>

definition Abs :: "string option \<Rightarrow> string \<Rightarrow> string option" where
  "Abs wd path =
     (if IsAbs path then Some (Clean path)
      else (case wd of None \<Rightarrow> None | Some d \<Rightarrow> Some (Join [d, path])))"

text \<open>\<^verbatim>\<open>filepath.Dir\<close>: everything up to the last separator, cleaned.\<close>

definition Dir :: "string \<Rightarrow> string" where
  "Dir path = Clean (rev (dropWhile (\<lambda>c. c \<noteq> Separator) (rev path)))"

text \<open>
  A path element that \<^verbatim>\<open>filepath.Clean\<close> writes as it reads it: not empty, not \<^verbatim>\<open>.\<close>,
  not \<^verbatim>\<open>..\<close>, and without a separator.
\<close>

definition plain :: "string \<Rightarrow> bool" where
  "plain e = (e \<noteq> [] \<and> e \<noteq> ''.'' \<and> e \<noteq> ''..'' \<and> Separator \<notin> set e)"

subsection \<open>archive/tar\<close>

record Header =
  Name :: string
  Typeflag :: char
  Size :: "64 word"
  Mode :: "64 word"
  Linkname :: string

definition TypeReg :: char where "TypeReg = CHR ''0''"
definition TypeLink :: char where "TypeLink = CHR ''1''"
definition TypeSymlink :: char where "TypeSymlink = CHR ''2''"
definition TypeDir :: char where "TypeDir = CHR ''5''"

text \<open>What \<^verbatim>\<open>tr.Next()\<close> returns before \<^verbatim>\<open>io.EOF\<close>: a header, or an error.\<close>

datatype tar_event = Next Header | NextError

text \<open>What opening the archive gives: \<^verbatim>\<open>os.Open\<close> fails, \<^verbatim>\<open>xz.NewReader\<close> fails, or
  a stream of tar entries that ends with \<^verbatim>\<open>io.EOF\<close>.\<close>

datatype archive_file = OpenFails | XZReaderFails | TarStream "tar_event list"

subsection \<open>encoding/json\<close>

datatype json =
    JNull
  | JBool bool
  | JNumber string
  | JString string
  | JArray "json list"
  | JObject "(string \<times> json) list"

text \<open>
  The bytes \<^verbatim>\<open>json.Unmarshal\<close> is given: not valid JSON, or the text of a JSON value
  (an object lists its members in the order of the text, duplicates included).
\<close>

datatype file_data = NotJSON | JSONText json

datatype json_error = SyntaxError | UnmarshalTypeError

text \<open>
  A member of a JSON object is stored in the struct field whose name equals its key
  after case folding. \<open>foldName\<close> folds a key as the decoder does: ASCII letters to upper
  case, and the two letters outside ASCII that fold into it, the long s (bytes C5 BF) to
  \<^verbatim>\<open>S\<close> and the Kelvin sign (bytes E2 84 AA) to \<^verbatim>\<open>K\<close>.
\<close>

definition upper :: "char \<Rightarrow> char" where
  "upper c =
     (let n = (of_char c :: nat) in if 97 \<le> n \<and> n \<le> 122 then char_of (n - 32) else c)"

fun foldName :: "string \<Rightarrow> string" where
  "foldName (c1 # c2 # c3 # cs) =
     (if c1 = CHR 0xE2 \<and> c2 = CHR 0x84 \<and> c3 = CHR 0xAA then CHR ''K'' # foldName cs
      else if c1 = CHR 0xC5 \<and> c2 = CHR 0xBF then CHR ''S'' # foldName (c3 # cs)
      else upper c1 # foldName (c2 # c3 # cs))"
| "foldName [c1, c2] =
     (if c1 = CHR 0xC5 \<and> c2 = CHR 0xBF then [CHR ''S''] else [upper c1, upper c2])"
| "foldName [c1] = [upper c1]"
| "foldName [] = []"

text \<open>
  Decoding a JSON value into a field that holds \<open>old\<close>; \<open>None\<close> is a type mismatch.
  A \<^verbatim>\<open>string\<close> field takes a JSON string and is left alone by \<^verbatim>\<open>null\<close>. A \<^verbatim>\<open>*string\<close>
  field (\<open>None\<close> is the nil pointer) takes a string and is set to nil by \<^verbatim>\<open>null\<close>. A
  \<^verbatim>\<open>[]string\<close> field (\<open>None\<close> is the nil slice) takes an array of strings, the empty
  array giving an empty slice that is not nil, and is set to nil by \<^verbatim>\<open>null\<close>. An
  element that is \<^verbatim>\<open>null\<close> leaves its slot as it is: the empty string in a new slice,
  which is what the model writes (the program never reads the elements).
\<close>

fun decode_string :: "json \<Rightarrow> string \<Rightarrow> string option" where
  "decode_string (JString s) old = Some s"
| "decode_string JNull old = Some old"
| "decode_string v old = None"

fun decode_pointer :: "json \<Rightarrow> string option \<Rightarrow> string option option" where
  "decode_pointer (JString s) old = Some (Some s)"
| "decode_pointer JNull old = Some None"
| "decode_pointer v old = None"

fun decode_elements :: "json list \<Rightarrow> string list option" where
  "decode_elements [] = Some []"
| "decode_elements (v # vs) =
     (case decode_string v [] of
        None \<Rightarrow> None
      | Some s \<Rightarrow> map_option ((#) s) (decode_elements vs))"

fun decode_slice :: "json \<Rightarrow> string list option \<Rightarrow> string list option option" where
  "decode_slice (JArray vs) old = map_option Some (decode_elements vs)"
| "decode_slice JNull old = Some None"
| "decode_slice v old = None"

text \<open>
  The members of an object are decoded in the order of the text, each into the struct
  as the members before it left it; \<open>store\<close> decodes one member. A type mismatch makes
  \<^verbatim>\<open>json.Unmarshal\<close> return an error, and the program then drops the struct.
\<close>

fun decode_members ::
  "(string \<Rightarrow> json \<Rightarrow> 'm \<Rightarrow> 'm option) \<Rightarrow> (string \<times> json) list \<Rightarrow> 'm \<Rightarrow> 'm option" where
  "decode_members store [] m = Some m"
| "decode_members store ((k, v) # kvs) m =
     (case store k v m of
        None \<Rightarrow> None
      | Some m' \<Rightarrow> decode_members store kvs m')"

text \<open>
  \<^verbatim>\<open>json.Unmarshal\<close> into a struct: invalid text is a syntax error; an object is decoded
  member by member; \<^verbatim>\<open>null\<close> leaves the struct as it is; any other value is a type
  mismatch.
\<close>

definition Unmarshal ::
  "(string \<Rightarrow> json \<Rightarrow> 'm \<Rightarrow> 'm option) \<Rightarrow> file_data \<Rightarrow> 'm \<Rightarrow> json_error + 'm" where
  "Unmarshal store fileData m =
     (case fileData of
        NotJSON \<Rightarrow> Inl SyntaxError
      | JSONText (JObject kvs) \<Rightarrow>
          (case decode_members store kvs m of
             None \<Rightarrow> Inl UnmarshalTypeError
           | Some m' \<Rightarrow> Inr m')
      | JSONText JNull \<Rightarrow> Inr m
      | JSONText v \<Rightarrow> Inl UnmarshalTypeError)"

section \<open>The file system as the program sees it\<close>

text \<open>
  The calls on the file system (and the one line printed) are recorded in the order they
  are made. Whether a writing call succeeds is decided by the world, from the calls made
  before it; so is what \<^verbatim>\<open>os.Stat\<close> and \<^verbatim>\<open>os.ReadFile\<close> find.
\<close>

datatype syscall =
    MkdirAll string "32 word"
  | OpenFile string "32 word"
  | CopyN string "64 word"
  | Close string
  | PrintSkipping char
  | Stat string
  | ReadFile string

datatype io_result = Success | EOF | Failure

text \<open>
  The errors of \<^verbatim>\<open>os.Stat\<close> that matter here: nothing exists at the path (ENOENT), a
  component of the path is not a directory (ENOTDIR), a component may not be searched
  (EACCES). \<open>None\<close> is the \<^verbatim>\<open>nil\<close> error: the entry exists.
\<close>

datatype stat_error = ENOENT | ENOTDIR | EACCES

record world =
  getwd :: "string option"
  files :: "string \<Rightarrow> archive_file"
  io :: "syscall list \<Rightarrow> syscall \<Rightarrow> io_result"
  stat :: "string \<Rightarrow> stat_error option"
  read_file :: "string \<Rightarrow> file_data option"

text \<open>\<^verbatim>\<open>os.IsNotExist\<close> holds of the error ENOENT and of no other error of \<^verbatim>\<open>os.Stat\<close>.\<close>

definition IsNotExist :: "stat_error option \<Rightarrow> bool" where
  "IsNotExist err = (err = Some ENOENT)"

text \<open>The test of the loop over the required entries:
  \<^verbatim>\<open>_, err := os.Stat(path); os.IsNotExist(err)\<close>.\<close>

definition not_exist :: "world \<Rightarrow> string \<Rightarrow> bool" where
  "not_exist w path = IsNotExist (stat w path)"

section \<open>extractTarXz\<close>

datatype error =
    CannotOpenArchive
  | CannotCreateXZReader
  | CannotGetAbsDest
  | ErrorReadingArchive
  | AbsolutePath string
  | PathTraversalAttempt string
  | CannotGetAbsTarget
  | OutsideDestination string
  | PathTooLong string
  | NullByte string
  | FailedCreateFolder
  | FileTooLarge string "64 word"
  | FailedCreateFilePath
  | FailedCreateFile
  | FailedWriteFile
  | LinksNotAllowed string

definition maxFileSize :: "64 word" where
  "maxFileSize = 500 * 1024 * 1024"

text \<open>
  The checks on the entry's name, in the order of the loop body (from
  \<^verbatim>\<open>filepath.Clean\<close> down to the NUL check): the error returned, or the target path.
\<close>

definition check_name :: "world \<Rightarrow> string \<Rightarrow> string \<Rightarrow> error + string" where
  "check_name w absDest name =
     (let cleanPath = Clean name in
      if IsAbs cleanPath then Inl (AbsolutePath name)
      else if HasPrefix cleanPath (''..'' @ [Separator]) \<or>
              Contains cleanPath ([Separator] @ ''..'' @ [Separator]) \<or>
              HasSuffix cleanPath ''..'' \<or>
              cleanPath = ''..'' then Inl (PathTraversalAttempt name)
      else
        let target = Join [absDest, cleanPath] in
        case Abs (getwd w) target of
          None \<Rightarrow> Inl CannotGetAbsTarget
        | Some absTarget \<Rightarrow>
            if \<not> HasPrefix absTarget (absDest @ [Separator]) \<and> absTarget \<noteq> absDest
            then Inl (OutsideDestination name)
            else if length cleanPath > 255 then Inl (PathTooLong name)
            else if ContainsAny cleanPath [CHR 0x00] then Inl (NullByte name)
            else Inr target)"

text \<open>The permission masks of the source, which Go writes in octal.\<close>

definition perm_0755 :: "32 word" where "perm_0755 = 0x1ED"
definition perm_0644 :: "32 word" where "perm_0644 = 0x1A4"

text \<open>The \<^verbatim>\<open>switch header.Typeflag\<close> of the loop body, for a target that passed the checks.\<close>

definition write_entry ::
  "world \<Rightarrow> Header \<Rightarrow> string \<Rightarrow> syscall list \<Rightarrow> (error + unit) \<times> syscall list" where
  "write_entry w header target tr =
     (if Typeflag header = TypeDir then
        let mk = MkdirAll target (ucast (Mode header) AND perm_0755); tr1 = tr @ [mk] in
        if io w tr mk \<noteq> Success then (Inl FailedCreateFolder, tr1) else (Inr (), tr1)
      else if Typeflag header = TypeReg then
        if maxFileSize <s Size header then (Inl (FileTooLarge (Name header) (Size header)), tr)
        else
          let mk = MkdirAll (Dir target) perm_0755; tr1 = tr @ [mk] in
          if io w tr mk \<noteq> Success then (Inl FailedCreateFilePath, tr1)
          else
            let opn = OpenFile target perm_0644; tr2 = tr1 @ [opn] in
            if io w tr1 opn \<noteq> Success then (Inl FailedCreateFile, tr2)
            else
              let cp = CopyN target (Size header); tr3 = tr2 @ [cp, Close target] in
              if io w tr2 cp = Failure then (Inl FailedWriteFile, tr3) else (Inr (), tr3)
      else if Typeflag header = TypeSymlink \<or> Typeflag header = TypeLink then
        (Inl (LinksNotAllowed (Name header)), tr)
      else (Inr (), tr @ [PrintSkipping (Typeflag header)]))"

text \<open>One turn of the loop, after \<^verbatim>\<open>tr.Next()\<close> has returned a header.\<close>

definition extract_entry ::
  "world \<Rightarrow> string \<Rightarrow> Header \<Rightarrow> syscall list \<Rightarrow> (error + unit) \<times> syscall list" where
  "extract_entry w absDest header tr =
     (case check_name w absDest (Name header) of
        Inl e \<Rightarrow> (Inl e, tr)
      | Inr target \<Rightarrow> write_entry w header target tr)"

fun extract_loop ::
  "world \<Rightarrow> string \<Rightarrow> tar_event list \<Rightarrow> syscall list \<Rightarrow> (error + unit) \<times> syscall list" where
  "extract_loop w absDest [] tr = (Inr (), tr)"
| "extract_loop w absDest (NextError # rest) tr = (Inl ErrorReadingArchive, tr)"
| "extract_loop w absDest (Next header # rest) tr =
     (case extract_entry w absDest header tr of
        (Inl e, tr') \<Rightarrow> (Inl e, tr')
      | (Inr u, tr') \<Rightarrow> extract_loop w absDest rest tr')"

definition extractTarXz :: "world \<Rightarrow> string \<Rightarrow> string \<Rightarrow> (error + unit) \<times> syscall list" where
  "extractTarXz w src dest =
     (case files w src of
        OpenFails \<Rightarrow> (Inl CannotOpenArchive, [])
      | XZReaderFails \<Rightarrow> (Inl CannotCreateXZReader, [])
      | TarStream entries \<Rightarrow>
          (case Abs (getwd w) dest of
             None \<Rightarrow> (Inl CannotGetAbsDest, [])
           | Some absDest \<Rightarrow> extract_loop w absDest entries []))"

section \<open>checkApgFileV1 and checkApgFileV2\<close>

text \<open>
  The field \<^verbatim>\<open>Name\<close> of the metadata structs is \<open>Name'\<close> here, the tar header having a
  \<open>Name\<close> already. \<^verbatim>\<open>MetadataV2\<close> has the fields of \<^verbatim>\<open>MetadataV1\<close> and three more.
\<close>

record MetadataV1 =
  Name' :: string
  Version :: string
  Architecture :: "string option"
  Description :: string
  Maintainer :: string
  License :: "string option"
  Homepage :: string
  Dependencies :: "string list option"
  Conflicts :: "string list option"
  Provides :: "string list option"
  Replaces :: "string list option"

record MetadataV2 = MetadataV1 +
  Type :: string
  Tags :: "string list option"
  Conf :: "string list option"

text \<open>\<^verbatim>\<open>var meta MetadataV1\<close> and \<^verbatim>\<open>var meta MetadataV2\<close>: every field is zero.\<close>

definition zero_V1 :: MetadataV1 where
  "zero_V1 =
     \<lparr>Name' = [], Version = [], Architecture = None, Description = [], Maintainer = [],
      License = None, Homepage = [], Dependencies = None, Conflicts = None,
      Provides = None, Replaces = None\<rparr>"

definition zero_V2 :: MetadataV2 where
  "zero_V2 =
     \<lparr>Name' = [], Version = [], Architecture = None, Description = [], Maintainer = [],
      License = None, Homepage = [], Dependencies = None, Conflicts = None,
      Provides = None, Replaces = None, Type = [], Tags = None, Conf = None\<rparr>"

text \<open>The \<^verbatim>\<open>json\<close> tags of the structs: which field a member's key selects.\<close>

definition store_V1 ::
  "string \<Rightarrow> json \<Rightarrow> 'a MetadataV1_scheme \<Rightarrow> 'a MetadataV1_scheme option" where
  "store_V1 key v m =
     (let k = foldName key in
      if k = ''NAME'' then map_option (\<lambda>s. m\<lparr>Name' := s\<rparr>) (decode_string v (Name' m))
      else if k = ''VERSION'' then
        map_option (\<lambda>s. m\<lparr>Version := s\<rparr>) (decode_string v (Version m))
      else if k = ''ARCHITECTURE'' then
        map_option (\<lambda>p. m\<lparr>Architecture := p\<rparr>) (decode_pointer v (Architecture m))
      else if k = ''DESCRIPTION'' then
        map_option (\<lambda>s. m\<lparr>Description := s\<rparr>) (decode_string v (Description m))
      else if k = ''MAINTAINER'' then
        map_option (\<lambda>s. m\<lparr>Maintainer := s\<rparr>) (decode_string v (Maintainer m))
      else if k = ''LICENSE'' then
        map_option (\<lambda>p. m\<lparr>License := p\<rparr>) (decode_pointer v (License m))
      else if k = ''HOMEPAGE'' then
        map_option (\<lambda>s. m\<lparr>Homepage := s\<rparr>) (decode_string v (Homepage m))
      else if k = ''DEPENDENCIES'' then
        map_option (\<lambda>l. m\<lparr>Dependencies := l\<rparr>) (decode_slice v (Dependencies m))
      else if k = ''CONFLICTS'' then
        map_option (\<lambda>l. m\<lparr>Conflicts := l\<rparr>) (decode_slice v (Conflicts m))
      else if k = ''PROVIDES'' then
        map_option (\<lambda>l. m\<lparr>Provides := l\<rparr>) (decode_slice v (Provides m))
      else if k = ''REPLACES'' then
        map_option (\<lambda>l. m\<lparr>Replaces := l\<rparr>) (decode_slice v (Replaces m))
      else Some m)"

definition store_V2 :: "string \<Rightarrow> json \<Rightarrow> MetadataV2 \<Rightarrow> MetadataV2 option" where
  "store_V2 key v m =
     (let k = foldName key in
      if k = ''TYPE'' then map_option (\<lambda>s. m\<lparr>Type := s\<rparr>) (decode_string v (Type m))
      else if k = ''TAGS'' then map_option (\<lambda>l. m\<lparr>Tags := l\<rparr>) (decode_slice v (Tags m))
      else if k = ''CONF'' then map_option (\<lambda>l. m\<lparr>Conf := l\<rparr>) (decode_slice v (Conf m))
      else store_V1 key v m)"

datatype check_error =
    RequiredMissing string
  | ReadingMetadataFailed
  | InvalidJSON json_error
  | MissingFields "string list"

definition required :: "string list" where
  "required = [''data'', ''md5sums'', ''metadata.json'']"

text \<open>
  The loop over \<^verbatim>\<open>required\<close>: the first name whose \<^verbatim>\<open>os.Stat\<close> error is
  \<^verbatim>\<open>os.IsNotExist\<close>, if any, and the calls made.
\<close>

fun check_required ::
  "world \<Rightarrow> string \<Rightarrow> string list \<Rightarrow> syscall list \<Rightarrow> string option \<times> syscall list" where
  "check_required w dir [] tr = (None, tr)"
| "check_required w dir (name # names) tr =
     (let path = Join [dir, name]; tr1 = tr @ [Stat path] in
      if not_exist w path then (Some name, tr1)
      else check_required w dir names tr1)"

text \<open>\<^verbatim>\<open>missingFields = append(missingFields, name)\<close> under its condition.\<close>

definition append_if :: "bool \<Rightarrow> string list \<Rightarrow> string \<Rightarrow> string list" where
  "append_if c missingFields name = (if c then missingFields @ [name] else missingFields)"

definition missingFields_V1 :: "'a MetadataV1_scheme \<Rightarrow> string list" where
  "missingFields_V1 meta =
     (let missingFields = [];
          missingFields = append_if (Name' meta = []) missingFields ''name'';
          missingFields = append_if (Version meta = []) missingFields ''version'';
          missingFields = append_if (Description meta = []) missingFields ''description'';
          missingFields = append_if (Maintainer meta = []) missingFields ''maintainer'';
          missingFields = append_if (Homepage meta = []) missingFields ''homepage'';
          missingFields = append_if (Dependencies meta = None) missingFields ''dependencies'';
          missingFields = append_if (Conflicts meta = None) missingFields ''conflicts'';
          missingFields = append_if (Provides meta = None) missingFields ''provides'';
          missingFields = append_if (Replaces meta = None) missingFields ''replaces''
      in missingFields)"

definition missingFields_V2 :: "MetadataV2 \<Rightarrow> string list" where
  "missingFields_V2 meta =
     (let missingFields = [];
          missingFields = append_if (Name' meta = []) missingFields ''name'';
          missingFields = append_if (Version meta = []) missingFields ''version'';
          missingFields = append_if (Type meta = []) missingFields ''type'';
          missingFields = append_if (Description meta = []) missingFields ''description'';
          missingFields = append_if (Maintainer meta = []) missingFields ''maintainer'';
          missingFields = append_if (Homepage meta = []) missingFields ''homepage'';
          missingFields = append_if (Tags meta = None) missingFields ''tags'';
          missingFields = append_if (Dependencies meta = None) missingFields ''dependencies'';
          missingFields = append_if (Conflicts meta = None) missingFields ''conflicts'';
          missingFields = append_if (Provides meta = None) missingFields ''provides'';
          missingFields = append_if (Replaces meta = None) missingFields ''replaces'';
          missingFields = append_if (Conf meta = None) missingFields ''conf''
      in missingFields)"

type_synonym check_result = "(check_error option \<times> check_error option \<times> string) \<times> syscall list"

text \<open>
  Go returns \<^verbatim>\<open>(error, error, string)\<close>; \<open>None\<close> is \<^verbatim>\<open>nil\<close>. The calls made are
  returned with it. The two functions are the same text but for the struct decoded into
  and the fields tested; \<^verbatim>\<open>checkApgFile\<close> of version 0.1.0 is \<open>checkApgFileV1\<close>.
\<close>

definition checkApgFileV1 :: "world \<Rightarrow> string \<Rightarrow> check_result" where
  "checkApgFileV1 w dir =
     (case check_required w dir required [] of
        (Some name, tr) \<Rightarrow> ((Some (RequiredMissing name), None, ''bad''), tr)
      | (None, tr) \<Rightarrow>
          let metadataPath = Join [dir, ''metadata.json''];
              tr1 = tr @ [ReadFile metadataPath]
          in case read_file w metadataPath of
               None \<Rightarrow> ((None, Some ReadingMetadataFailed, ''bad''), tr1)
             | Some fileData \<Rightarrow>
                 (case Unmarshal store_V1 fileData zero_V1 of
                    Inl err \<Rightarrow> ((None, Some (InvalidJSON err), ''bad''), tr1)
                  | Inr meta \<Rightarrow>
                      let missingFields = missingFields_V1 meta in
                      if length missingFields > 0
                      then ((None, Some (MissingFields missingFields), ''bad''), tr1)
                      else ((None, None, ''good''), tr1)))"

definition checkApgFileV2 :: "world \<Rightarrow> string \<Rightarrow> check_result" where
  "checkApgFileV2 w dir =
     (case check_required w dir required [] of
        (Some name, tr) \<Rightarrow> ((Some (RequiredMissing name), None, ''bad''), tr)
      | (None, tr) \<Rightarrow>
          let metadataPath = Join [dir, ''metadata.json''];
              tr1 = tr @ [ReadFile metadataPath]
          in case read_file w metadataPath of
               None \<Rightarrow> ((None, Some ReadingMetadataFailed, ''bad''), tr1)
             | Some fileData \<Rightarrow>
                 (case Unmarshal store_V2 fileData zero_V2 of
                    Inl err \<Rightarrow> ((None, Some (InvalidJSON err), ''bad''), tr1)
                  | Inr meta \<Rightarrow>
                      let missingFields = missingFields_V2 meta in
                      if length missingFields > 0
                      then ((None, Some (MissingFields missingFields), ''bad''), tr1)
                      else ((None, None, ''good''), tr1)))"

text \<open>
  The choice \<^verbatim>\<open>main\<close> makes from the flag \<^verbatim>\<open>--apg-version\<close>, a Go \<^verbatim>\<open>int\<close> (64 bits,
  signed).
\<close>

definition validate :: "world \<Rightarrow> string \<Rightarrow> 64 word \<Rightarrow> check_result" where
  "validate w dir apgVersion =
     (if apgVersion = 2 then checkApgFileV2 w dir else checkApgFileV1 w dir)"

section \<open>The words of the specification\<close>

text \<open>
  The specification names one error kind, PathSecurityViolation, for a traversal
  attempt (its path-traversal guard rejects absolute names too), a containment-check
  failure, a disallowed link entry, a path too long and an embedded NUL.
\<close>

fun PathSecurityViolation :: "error \<Rightarrow> bool" where
  "PathSecurityViolation (AbsolutePath n) = True"
| "PathSecurityViolation (PathTraversalAttempt n) = True"
| "PathSecurityViolation (OutsideDestination n) = True"
| "PathSecurityViolation (PathTooLong n) = True"
| "PathSecurityViolation (NullByte n) = True"
| "PathSecurityViolation (LinksNotAllowed n) = True"
| "PathSecurityViolation e = False"

text \<open>
  The specification's path-traversal guard is the lexical check that rejects an entry
  whose cleaned name is absolute or holds a \<^verbatim>\<open>..\<close>; the program has one error for each
  of the two tests.
\<close>

fun TraversalGuardRejection :: "error \<Rightarrow> bool" where
  "TraversalGuardRejection (AbsolutePath n) = True"
| "TraversalGuardRejection (PathTraversalAttempt n) = True"
| "TraversalGuardRejection e = False"





text \<open>
  Modelled from the spec: one schema descriptor per format version, the required field
  names each with the test that finds the field missing (a string field when empty, a
  list field when absent), and the list of the names whose test holds. The names are in
  the order in which the program tests them.
\<close>

definition spec_required_V1 :: "(string \<times> ('a MetadataV1_scheme \<Rightarrow> bool)) list" where
  "spec_required_V1 =
     [(''name'', \<lambda>m. Name' m = []),
      (''version'', \<lambda>m. Version m = []),
      (''description'', \<lambda>m. Description m = []),
      (''maintainer'', \<lambda>m. Maintainer m = []),
      (''homepage'', \<lambda>m. Homepage m = []),
      (''dependencies'', \<lambda>m. Dependencies m = None),
      (''conflicts'', \<lambda>m. Conflicts m = None),
      (''provides'', \<lambda>m. Provides m = None),
      (''replaces'', \<lambda>m. Replaces m = None)]"

definition spec_required_V2 :: "(string \<times> (MetadataV2 \<Rightarrow> bool)) list" where
  "spec_required_V2 =
     [(''name'', \<lambda>m. Name' m = []),
      (''version'', \<lambda>m. Version m = []),
      (''type'', \<lambda>m. Type m = []),
      (''description'', \<lambda>m. Description m = []),
      (''maintainer'', \<lambda>m. Maintainer m = []),
      (''homepage'', \<lambda>m. Homepage m = []),
      (''tags'', \<lambda>m. Tags m = None),
      (''dependencies'', \<lambda>m. Dependencies m = None),
      (''conflicts'', \<lambda>m. Conflicts m = None),
      (''provides'', \<lambda>m. Provides m = None),
      (''replaces'', \<lambda>m. Replaces m = None),
      (''conf'', \<lambda>m. Conf m = None)]"

definition spec_missing :: "(string \<times> ('m \<Rightarrow> bool)) list \<Rightarrow> 'm \<Rightarrow> string list" where
  "spec_missing descriptor m = map fst (filter (\<lambda>field. snd field m) descriptor)"

text \<open>
  Modelled from the spec: the checks on a name in the order of the steps of the spec's
  algorithm, the lexical guard (step 3b), then the length and the NUL byte (step 3c),
  then the containment guard (step 3d). The tests and the errors are those of the
  program; only their order is the spec's.
\<close>

definition spec_check_name :: "world \<Rightarrow> string \<Rightarrow> string \<Rightarrow> error + string" where
  "spec_check_name w absDest name =
     (let cleanPath = Clean name in
      if IsAbs cleanPath then Inl (AbsolutePath name)
      else if HasPrefix cleanPath (''..'' @ [Separator]) \<or>
              Contains cleanPath ([Separator] @ ''..'' @ [Separator]) \<or>
              HasSuffix cleanPath ''..'' \<or>
              cleanPath = ''..'' then Inl (PathTraversalAttempt name)
      else if length cleanPath > 255 then Inl (PathTooLong name)
      else if ContainsAny cleanPath [CHR 0x00] then Inl (NullByte name)
      else
        let target = Join [absDest, cleanPath] in
        case Abs (getwd w) target of
          None \<Rightarrow> Inl CannotGetAbsTarget
        | Some absTarget \<Rightarrow>
            if \<not> HasPrefix absTarget (absDest @ [Separator]) \<and> absTarget \<noteq> absDest
            then Inl (OutsideDestination name)
            else Inr target)"

text \<open>
  Modelled from the spec: a mandatory entry is missing when nothing exists at its path
  under the destination. \<^verbatim>\<open>os.Stat\<close> then fails with ENOENT, or with ENOTDIR when a
  component of the path (the destination itself, say) is not a directory.
\<close>

definition spec_entry_missing :: "world \<Rightarrow> string \<Rightarrow> bool" where
  "spec_entry_missing w path = (stat w path = Some ENOENT \<or> stat w path = Some ENOTDIR)"

text \<open>
  The list-typed required fields of the two format versions, by their names in the
  metadata.
\<close>

definition list_fields_V1 :: "string list" where
  "list_fields_V1 = [''dependencies'', ''conflicts'', ''provides'', ''replaces'']"

definition list_fields_V2 :: "string list" where
  "list_fields_V2 =
     [''tags'', ''dependencies'', ''conflicts'', ''provides'', ''replaces'', ''conf'']"

text \<open>
  What the metadata text says of a field: the value of the last member of the object
  whose key is the field's name, in any case of the letters (\<open>K\<close> is the folded name);
  \<open>None\<close> when the object has no such member, that is, when the key is absent.
\<close>

fun last_member :: "string \<Rightarrow> (string \<times> json) list \<Rightarrow> json option" where
  "last_member K [] = None"
| "last_member K ((k, v) # kvs) =
     (case last_member K kvs of
        Some x \<Rightarrow> Some x
      | None \<Rightarrow> if foldName k = K then Some v else None)"

section \<open>Worlds and inputs for the examples\<close>

text \<open>
  A world in which every writing call succeeds: the archive holds \<open>entries\<close>, the paths
  \<open>absent\<close> do not exist, and every file read has the content \<open>metadata\<close>.
\<close>

definition example_world ::
  "tar_event list \<Rightarrow> string list \<Rightarrow> file_data option \<Rightarrow> world" where
  "example_world entries absent metadata =
     \<lparr>getwd = Some ''/'',
      files = (\<lambda>src. TarStream entries),
      io = (\<lambda>tr call. Success),
      stat = (\<lambda>path. if List.member absent path then Some ENOENT else None),
      read_file = (\<lambda>path. metadata)\<rparr>"

definition entry :: "string \<Rightarrow> char \<Rightarrow> 64 word \<Rightarrow> Header" where
  "entry name typeflag bytes =
     \<lparr>Name = name, Typeflag = typeflag, Size = bytes, Mode = 0x1ED, Linkname = []\<rparr>"

definition link_entry :: "string \<Rightarrow> char \<Rightarrow> string \<Rightarrow> Header" where
  "link_entry name typeflag target =
     \<lparr>Name = name, Typeflag = typeflag, Size = 0, Mode = 0x1FF, Linkname = target\<rparr>"

definition example_members :: "(string \<times> json) list" where
  "example_members =
     [(''name'', JString ''hello''),
      (''version'', JString ''1.0''),
      (''description'', JString ''a package''),
      (''maintainer'', JString ''someone''),
      (''homepage'', JString ''https://example.org''),
      (''conflicts'', JArray []),
      (''provides'', JArray [JString ''hello'']),
      (''replaces'', JArray [])]"

text \<open>
  A world after an archive whose only entry is a regular file named \<^verbatim>\<open>.\<close>: the
  destination is then a regular file, so that \<^verbatim>\<open>os.Stat\<close> of any path under it fails
  with ENOTDIR, and no file under it can be read.
\<close>

definition file_destination_world :: world where
  "file_destination_world =
     \<lparr>getwd = Some ''/'',
      files = (\<lambda>src. TarStream [Next (entry ''.'' TypeReg 3)]),
      io = (\<lambda>tr call. Success),
      stat = (\<lambda>path. Some ENOTDIR),
      read_file = (\<lambda>path. None)\<rparr>"

text \<open>Metadata of format version 2 with every field but \<^verbatim>\<open>tags\<close>.\<close>

definition example_members_V2 :: "(string \<times> json) list" where
  "example_members_V2 =
     [(''name'', JString ''hello''),
      (''version'', JString ''1.0''),
      (''type'', JString ''binary''),
      (''description'', JString ''a package''),
      (''maintainer'', JString ''someone''),
      (''homepage'', JString ''https://example.org''),
      (''dependencies'', JArray []),
      (''conflicts'', JArray []),
      (''provides'', JArray [JString ''hello'']),
      (''replaces'', JArray []),
      (''conf'', JArray [])]"

section \<open>Paths: elements, joining and cleaning\<close>

lemma elements_not_Nil: "elements s \<noteq> []"
  by (induction s) (auto split: list.splits)

lemma join_sep_Cons: "es \<noteq> [] \<Longrightarrow> join_sep (e # es) = e @ Separator # join_sep es"
  by (cases es) auto

lemma join_sep_elements: "join_sep (elements s) = s"
proof (induction s)
  case Nil
  show ?case by simp
next
  case (Cons c cs)
  obtain e es where ees: "elements cs = e # es"
    using elements_not_Nil [of cs] by (cases "elements cs") auto
  show ?case
  proof (cases "c = Separator")
    case True
    then show ?thesis using Cons ees by simp
  next
    case False
    then show ?thesis using Cons ees by (cases es) auto
  qed
qed

lemma join_sep_append:
  "join_sep (xs @ ys) =
     join_sep xs @ (if xs \<noteq> [] \<and> ys \<noteq> [] then [Separator] else []) @ join_sep ys"
proof (induction xs rule: join_sep.induct)
  case 1
  show ?case by simp
next
  case (2 e)
  show ?case by (cases ys) auto
next
  case (3 e v va)
  then show ?case by simp
qed

lemma dotdot_element_shape:
  assumes "''..'' \<in> set (elements c)"
  shows "prefix (''..'' @ [Separator]) c \<or> sublist ([Separator] @ ''..'' @ [Separator]) c \<or>
         suffix ''..'' c \<or> c = ''..''"
proof -
  obtain pre post where sp: "elements c = pre @ ''..'' # post"
    using assms by (auto dest: split_list)
  have c: "c = join_sep (pre @ [''..''] @ post)"
    using join_sep_elements [of c] sp by simp
  show ?thesis
  proof (cases "post = []")
    case True
    then have "c = join_sep pre @ (if pre \<noteq> [] then [Separator] else []) @ ''..''"
      using c by (simp add: join_sep_append)
    then have "suffix ''..'' c"
      by (metis append.assoc suffixI)
    then show ?thesis by simp
  next
    case False
    then have c2: "c = join_sep pre @ (if pre \<noteq> [] then [Separator] else []) @ ''..'' @ [Separator] @ join_sep post"
      using c by (simp add: join_sep_append join_sep_Cons)
    show ?thesis
    proof (cases "pre = []")
      case True
      then have "c = (''..'' @ [Separator]) @ join_sep post" using c2 by simp
      then have "prefix (''..'' @ [Separator]) c" by (metis prefixI)
      then show ?thesis by simp
    next
      case False
      then have "c = join_sep pre @ ([Separator] @ ''..'' @ [Separator]) @ join_sep post"
        using c2 by simp
      then have "sublist ([Separator] @ ''..'' @ [Separator]) c"
        by (metis sublist_appendI)
      then show ?thesis by simp
    qed
  qed
qed

lemma elements_sep_free: "e \<in> set (elements s) \<Longrightarrow> Separator \<notin> set e"
proof (induction s arbitrary: e)
  case Nil
  then show ?case by simp
next
  case (Cons c cs)
  obtain x xs where ees: "elements cs = x # xs"
    using elements_not_Nil [of cs] by (cases "elements cs") auto
  show ?case
  proof (cases "c = Separator")
    case True
    then show ?thesis using Cons by auto
  next
    case False
    then have "e = c # x \<or> e \<in> set xs" using Cons.prems ees by simp
    then show ?thesis using Cons.IH [of x] Cons.IH [of e] ees False by auto
  qed
qed

lemma elements_append_sep:
  "Separator \<notin> set e \<Longrightarrow> elements (e @ Separator # r) = e # elements r"
  by (induction e) auto

lemma elements_sep_free_id: "Separator \<notin> set e \<Longrightarrow> elements e = [e]"
  by (induction e) auto

lemma elements_join_sep:
  "es \<noteq> [] \<Longrightarrow> (\<And>e. e \<in> set es \<Longrightarrow> Separator \<notin> set e) \<Longrightarrow> elements (join_sep es) = es"
proof (induction es rule: join_sep.induct)
  case 1
  then show ?case by simp
next
  case (2 e)
  then show ?case by (simp add: elements_sep_free_id)
next
  case (3 e v va)
  then show ?case by (simp add: elements_append_sep)
qed

lemma clean_step_skip: "e = [] \<or> e = ''.'' \<Longrightarrow> clean_step rooted out e = out"
  by (simp add: clean_step_def)

lemma clean_step_dotdot:
  "clean_step rooted out ''..'' =
     (case out of [] \<Rightarrow> if rooted then [] else [''..'']
      | t # ts \<Rightarrow> if t = ''..'' then (if rooted then out else ''..'' # out) else ts)"
  by (simp add: clean_step_def)

lemma clean_step_element:
  "e \<noteq> [] \<Longrightarrow> e \<noteq> ''.'' \<Longrightarrow> e \<noteq> ''..'' \<Longrightarrow> clean_step rooted out e = e # out"
  by (simp add: clean_step_def)

lemma clean_step_keeps:
  assumes inv: "\<forall>e\<in>set out. e \<noteq> [] \<and> (rooted \<longrightarrow> e \<noteq> ''..'') \<and> Separator \<notin> set e"
    and x: "Separator \<notin> set x"
  shows "\<forall>e\<in>set (clean_step rooted out x).
           e \<noteq> [] \<and> (rooted \<longrightarrow> e \<noteq> ''..'') \<and> Separator \<notin> set e"
proof (cases "x = [] \<or> x = ''.''")
  case True
  then have "clean_step rooted out x = out" by (rule clean_step_skip)
  then show ?thesis using inv by simp
next
  case skip: False
  show ?thesis
  proof (cases "x = ''..''")
    case True
    then have cs: "clean_step rooted out x =
        (case out of [] \<Rightarrow> if rooted then [] else [''..'']
         | t # ts \<Rightarrow> if t = ''..'' then (if rooted then out else ''..'' # out) else ts)"
      by (simp only: clean_step_dotdot)
    have dd: "Separator \<notin> set ''..''" by (simp add: Separator_def)
    show ?thesis
    proof (cases out)
      case Nil
      then show ?thesis using cs dd by simp
    next
      case (Cons t ts)
      then show ?thesis using cs inv dd by (cases "t = ''..''") simp_all
    qed
  next
    case False
    then have "clean_step rooted out x = x # out"
      using skip by (simp add: clean_step_element)
    then show ?thesis using inv x skip False by simp
  qed
qed

lemma clean_step_inv:
  assumes "\<forall>e\<in>set out. e \<noteq> [] \<and> (rooted \<longrightarrow> e \<noteq> ''..'') \<and> Separator \<notin> set e"
    and "\<forall>x\<in>set xs. Separator \<notin> set x"
  shows "\<forall>e\<in>set (foldl (clean_step rooted) out xs).
           e \<noteq> [] \<and> (rooted \<longrightarrow> e \<noteq> ''..'') \<and> Separator \<notin> set e"
  using assms
proof (induction xs arbitrary: out)
  case Nil
  then show ?case by simp
next
  case (Cons x xs)
  have step: "\<forall>e\<in>set (clean_step rooted out x).
          e \<noteq> [] \<and> (rooted \<longrightarrow> e \<noteq> ''..'') \<and> Separator \<notin> set e"
    by (rule clean_step_keeps) (use Cons.prems in simp_all)
  have rest: "\<forall>x\<in>set xs. Separator \<notin> set x"
    using Cons.prems(2) by simp
  show ?case
    using Cons.IH [OF step rest] by simp
qed

lemma Clean_buffer_inv:
  assumes "e \<in> set (foldl (clean_step rooted) [] (elements p))"
  shows "e \<noteq> [] \<and> (rooted \<longrightarrow> e \<noteq> ''..'') \<and> Separator \<notin> set e"
proof -
  have "\<forall>x\<in>set (elements p). Separator \<notin> set x"
    using elements_sep_free by blast
  then have "\<forall>e\<in>set (foldl (clean_step rooted) [] (elements p)).
           e \<noteq> [] \<and> (rooted \<longrightarrow> e \<noteq> ''..'') \<and> Separator \<notin> set e"
    by (intro clean_step_inv) simp_all
  then show ?thesis
    using assms by blast
qed

lemma join_sep_hd: "es \<noteq> [] \<Longrightarrow> hd es \<noteq> [] \<Longrightarrow> hd (join_sep es) = hd (hd es) \<and> join_sep es \<noteq> []"
  by (induction es rule: join_sep.induct) auto

lemma Clean_relative:
  assumes "p = [] \<or> hd p \<noteq> Separator"
  shows "\<not> IsAbs (Clean p)"
proof (cases "p = []")
  case True
  then show ?thesis by (simp add: Clean_def IsAbs_def HasPrefix_def)
next
  case False
  define out where "out = rev (foldl (clean_step False) [] (elements p))"
  have inv: "\<And>e. e \<in> set out \<Longrightarrow> e \<noteq> [] \<and> Separator \<notin> set e"
    unfolding out_def using Clean_buffer_inv [of _ False p] by auto
  have cp: "Clean p = (if out = [] then ''.'' else join_sep out)"
    using False assms by (simp add: Clean_def out_def)
  show ?thesis
  proof (cases "out = []")
    case True
    then show ?thesis using cp by (simp add: IsAbs_def HasPrefix_def)
  next
    case False
    then have h: "hd out \<noteq> [] \<and> Separator \<notin> set (hd out)" using inv by simp
    then have "hd (join_sep out) = hd (hd out) \<and> join_sep out \<noteq> []"
      using False join_sep_hd by blast
    moreover have "hd (hd out) \<noteq> Separator"
      using h by (cases "hd out") auto
    ultimately have "\<not> prefix [Separator] (join_sep out)"
      by (cases "join_sep out") auto
    then show ?thesis using cp False by (simp add: IsAbs_def HasPrefix_def Separator_def)
  qed
qed

lemma Clean_rooted_no_dotdot:
  assumes "IsAbs (Clean p)"
  shows "''..'' \<notin> set (elements (Clean p))"
proof -
  have rooted: "p \<noteq> [] \<and> hd p = Separator"
    using assms Clean_relative [of p] by blast
  define out where "out = rev (foldl (clean_step True) [] (elements p))"
  have inv: "\<And>e. e \<in> set out \<Longrightarrow> e \<noteq> ''..'' \<and> Separator \<notin> set e"
    unfolding out_def using Clean_buffer_inv [of _ True p] by auto
  have cp: "Clean p = Separator # join_sep out"
    using rooted by (simp add: Clean_def out_def)
  show ?thesis
  proof (cases "out = []")
    case True
    then show ?thesis using cp by simp
  next
    case False
    then have "elements (join_sep out) = out"
      using inv by (intro elements_join_sep) auto
    then show ?thesis using cp inv by auto
  qed
qed

lemma Clean_rooted: "IsAbs p \<Longrightarrow> IsAbs (Clean p)"
  by (cases p) (auto simp: IsAbs_def HasPrefix_def Clean_def Separator_def Let_def)

lemma Join_rooted: "IsAbs a \<Longrightarrow> IsAbs (Join [a, b])"
  by (cases a) (auto simp: IsAbs_def HasPrefix_def Join_def Clean_def Separator_def Let_def)

text \<open>Once the destination has an absolute path, so has every target: \<^verbatim>\<open>filepath.Abs\<close>
  of a target cannot fail.\<close>

lemma Abs_target_defined:
  assumes "Abs wd dest = Some absDest"
  shows "Abs wd (Join [absDest, c]) \<noteq> None"
proof (cases wd)
  case None
  then have "IsAbs dest \<and> absDest = Clean dest"
    using assms by (auto simp: Abs_def split: if_splits)
  then have "IsAbs (Join [absDest, c])"
    using Clean_rooted Join_rooted by blast
  then show ?thesis by (simp add: Abs_def)
next
  case (Some d)
  then show ?thesis by (simp add: Abs_def)
qed

section \<open>The extraction loop\<close>

lemma extract_loop_append:
  "extract_loop w d (pre @ rest) tr =
     (case extract_loop w d pre tr of
        (Inl e, tr') \<Rightarrow> (Inl e, tr')
      | (Inr u, tr') \<Rightarrow> extract_loop w d rest tr')"
proof (induction pre arbitrary: tr)
  case Nil
  then show ?case by simp
next
  case (Cons x pre)
  then show ?case
    by (cases x) (auto split: prod.splits sum.splits)
qed

text \<open>
  When the entries before \<open>h\<close> have been extracted, with the calls \<open>tr\<close>, the outcome of
  the extraction is decided at \<open>h\<close>: a rejection of \<open>h\<close> is the result, and the entries
  after \<open>h\<close> are not read.
\<close>

lemma extractTarXz_at_entry:
  assumes "files w src = TarStream (pre @ Next h # rest)"
    and "Abs (getwd w) dest = Some absDest"
    and "extract_loop w absDest pre [] = (Inr (), tr)"
  shows "extractTarXz w src dest =
     (case extract_entry w absDest h tr of
        (Inl e, tr') \<Rightarrow> (Inl e, tr')
      | (Inr u, tr') \<Rightarrow> extract_loop w absDest rest tr')"
  using assms by (simp add: extractTarXz_def extract_loop_append)

lemma check_name_error_kind:
  assumes "Abs (getwd w) dest = Some absDest" and "check_name w absDest n = Inl e"
  shows "PathSecurityViolation e"
proof -
  have "Abs (getwd w) (Join [absDest, Clean n]) \<noteq> None"
    using assms(1) by (rule Abs_target_defined)
  then obtain t where "Abs (getwd w) (Join [absDest, Clean n]) = Some t" by blast
  then show ?thesis
    using assms(2) by (auto simp: check_name_def Let_def split: if_splits)
qed

lemma extract_entry_link:
  assumes "Typeflag h = TypeSymlink \<or> Typeflag h = TypeLink"
    and "Abs (getwd w) dest = Some absDest"
  shows "\<exists>e. PathSecurityViolation e \<and> extract_entry w absDest h tr = (Inl e, tr)"
proof (cases "check_name w absDest (Name h)")
  case (Inl e)
  then show ?thesis
    using check_name_error_kind [OF assms(2) Inl] by (simp add: extract_entry_def)
next
  case (Inr target)
  have "Typeflag h \<noteq> TypeDir \<and> Typeflag h \<noteq> TypeReg"
    using assms(1) by (auto simp: TypeDir_def TypeReg_def TypeSymlink_def TypeLink_def)
  then show ?thesis
    using Inr assms(1) by (simp add: extract_entry_def write_entry_def)
qed

lemma check_name_dotdot:
  assumes "''..'' \<in> set (elements (Clean n))"
  shows "check_name w absDest n = Inl (PathTraversalAttempt n)"
proof -
  have rel: "\<not> IsAbs (Clean n)"
    using assms Clean_rooted_no_dotdot by blast
  have "HasPrefix (Clean n) (''..'' @ [Separator]) \<or>
        Contains (Clean n) ([Separator] @ ''..'' @ [Separator]) \<or>
        HasSuffix (Clean n) ''..'' \<or> Clean n = ''..''"
    using dotdot_element_shape [OF assms] by (simp only: HasPrefix_def Contains_def HasSuffix_def)
  then show ?thesis
    using rel by (simp only: check_name_def Let_def if_True if_False)
qed



section \<open>Cleaned paths are fixed by cleaning\<close>

lemma clean_step_no_dot:
  assumes "\<forall>e\<in>set out. e \<noteq> ''.''"
  shows "\<forall>e\<in>set (clean_step rooted out x). e \<noteq> ''.''"
proof (cases "x = [] \<or> x = ''.''")
  case True
  then have "clean_step rooted out x = out" by (rule clean_step_skip)
  then show ?thesis using assms by simp
next
  case skip: False
  show ?thesis
  proof (cases "x = ''..''")
    case True
    then have cs: "clean_step rooted out x =
        (case out of [] \<Rightarrow> if rooted then [] else [''..'']
         | t # ts \<Rightarrow> if t = ''..'' then (if rooted then out else ''..'' # out) else ts)"
      by (simp only: clean_step_dotdot)
    show ?thesis
    proof (cases out)
      case Nil
      then show ?thesis using cs by simp
    next
      case (Cons t ts)
      then show ?thesis using cs assms by (cases "t = ''..''") simp_all
    qed
  next
    case False
    then have "clean_step rooted out x = x # out"
      using skip by (simp add: clean_step_element)
    then show ?thesis using assms skip by simp
  qed
qed

lemma foldl_clean_step_no_dot:
  assumes "\<forall>e\<in>set out. e \<noteq> ''.''"
  shows "\<forall>e\<in>set (foldl (clean_step rooted) out xs). e \<noteq> ''.''"
  using assms
proof (induction xs arbitrary: out)
  case Nil
  then show ?case by simp
next
  case (Cons x xs)
  have "\<forall>e\<in>set (clean_step rooted out x). e \<noteq> ''.''"
    using Cons.prems by (rule clean_step_no_dot)
  then show ?case using Cons.IH by simp
qed

text \<open>Elements that cleaning keeps as they are: \<open>plain\<close> ones.\<close>

lemma foldl_clean_step_plain:
  assumes "\<forall>e\<in>set xs. plain e"
  shows "foldl (clean_step rooted) out xs = rev xs @ out"
  using assms
proof (induction xs arbitrary: out)
  case Nil
  then show ?case by simp
next
  case (Cons x xs)
  have "plain x" using Cons.prems by simp
  then have "clean_step rooted out x = x # out"
    by (simp add: plain_def clean_step_element)
  then show ?case using Cons by simp
qed

lemma Clean_rooted_unfold:
  "Clean (Separator # cs) =
     Separator # join_sep (rev (foldl (clean_step True) [] (elements (Separator # cs))))"
  by (simp add: Clean_def)

lemma Clean_plain_rooted:
  assumes "\<forall>e\<in>set A. plain e"
  shows "Clean (Separator # join_sep A) = Separator # join_sep A"
proof (cases "A = []")
  case True
  then show ?thesis by (simp add: Clean_def clean_step_skip)
next
  case False
  have sf: "\<And>e. e \<in> set A \<Longrightarrow> Separator \<notin> set e"
    using assms by (simp add: plain_def)
  have "elements (join_sep A) = A"
    using False sf by (rule elements_join_sep)
  then have el: "elements (Separator # join_sep A) = [] # A" by simp
  have "foldl (clean_step True) [] ([] # A) = foldl (clean_step True) [] A"
    by (simp add: clean_step_skip)
  also have "\<dots> = rev A"
    using foldl_clean_step_plain [OF assms, of True "[]"] by simp
  finally have "foldl (clean_step True) [] (elements (Separator # join_sep A)) = rev A"
    by (simp only: el)
  then show ?thesis
    by (simp only: Clean_rooted_unfold rev_rev_ident)
qed

lemma Clean_rooted_form:
  assumes "IsAbs p"
  shows "\<exists>A. Clean p = Separator # join_sep A \<and> (\<forall>e\<in>set A. plain e)"
proof -
  obtain c cs where p: "p = c # cs" "c = Separator"
    using assms by (cases p) (auto simp: IsAbs_def HasPrefix_def Separator_def)
  define out where "out = rev (foldl (clean_step True) [] (elements p))"
  have cp: "Clean p = Separator # join_sep out"
    using p by (simp add: Clean_def out_def)
  have "\<forall>e\<in>set (foldl (clean_step True) [] (elements p)). e \<noteq> ''.''"
    by (rule foldl_clean_step_no_dot) simp
  moreover have "\<forall>e\<in>set (foldl (clean_step True) [] (elements p)).
                   e \<noteq> [] \<and> e \<noteq> ''..'' \<and> Separator \<notin> set e"
    using Clean_buffer_inv [of _ True p] by blast
  ultimately have "\<forall>e\<in>set out. plain e"
    by (simp add: out_def plain_def)
  then show ?thesis using cp by blast
qed

lemma Clean_relative_form:
  assumes "\<not> IsAbs (Clean p)" and "''..'' \<notin> set (elements (Clean p))"
  shows "Clean p = ''.'' \<or> (\<exists>C. C \<noteq> [] \<and> Clean p = join_sep C \<and> (\<forall>e\<in>set C. plain e))"
proof (cases "p = []")
  case True
  then show ?thesis by (simp add: Clean_def)
next
  case False
  have rel: "hd p \<noteq> Separator"
  proof
    assume "hd p = Separator"
    then have "IsAbs p" using False by (cases p) (auto simp: IsAbs_def HasPrefix_def Separator_def)
    then show False using assms(1) Clean_rooted by blast
  qed
  define out where "out = rev (foldl (clean_step False) [] (elements p))"
  have cp: "Clean p = (if out = [] then ''.'' else join_sep out)"
    using False rel by (simp add: Clean_def out_def)
  show ?thesis
  proof (cases "out = []")
    case True
    then show ?thesis using cp by simp
  next
    case ne: False
    have nd: "\<forall>e\<in>set out. e \<noteq> ''.''"
      unfolding out_def using foldl_clean_step_no_dot [of "[]" False "elements p"] by simp
    have inv: "\<forall>e\<in>set out. e \<noteq> [] \<and> Separator \<notin> set e"
      unfolding out_def using Clean_buffer_inv [of _ False p] by auto
    then have "elements (join_sep out) = out"
      using ne by (intro elements_join_sep) auto
    then have "''..'' \<notin> set out"
      using assms(2) cp ne by simp
    then have "\<forall>e\<in>set out. plain e"
      using nd inv by (auto simp: plain_def)
    then show ?thesis using cp ne by auto
  qed
qed

text \<open>
  With a destination that is a cleaned absolute path other than the root, the target of
  a name that passes the lexical tests is the destination itself or starts with the
  destination and a separator: the containment test then never rejects.
\<close>

lemma containment_passes_off_root:
  assumes "IsAbs dest" and "Clean dest \<noteq> ''/''"
    and "\<not> IsAbs (Clean n)" and "''..'' \<notin> set (elements (Clean n))"
  shows "Abs wd (Join [Clean dest, Clean n]) = Some (Join [Clean dest, Clean n]) \<and>
         (Join [Clean dest, Clean n] = Clean dest \<or>
          HasPrefix (Join [Clean dest, Clean n]) (Clean dest @ [Separator]))"
proof -
  obtain A where A: "Clean dest = Separator # join_sep A" "\<forall>e\<in>set A. plain e"
    using Clean_rooted_form [OF assms(1)] by blast
  have Ane: "A \<noteq> []"
    using A(1) assms(2) by (auto simp: Separator_def)
  have join: "Join [Clean dest, Clean n] = Clean (Clean dest @ Separator # Clean n)"
    using A(1) by (simp add: Join_def)
  consider (dot) "Clean n = ''.''"
    | (path) C where "C \<noteq> []" "Clean n = join_sep C" "\<forall>e\<in>set C. plain e"
    using Clean_relative_form [OF assms(3) assms(4)] by blast
  then show ?thesis
  proof cases
    case dot
    have sf: "\<And>e. e \<in> set A \<Longrightarrow> Separator \<notin> set e"
      using A(2) by (simp add: plain_def)
    have elA: "elements (join_sep A) = A"
      using Ane sf by (rule elements_join_sep)
    have "join_sep A @ Separator # ''.'' = join_sep (A @ [''.''])"
      using Ane by (simp add: join_sep_append)
    moreover have "elements (join_sep (A @ [''.''])) = A @ [''.'']"
      using sf by (intro elements_join_sep) (auto simp: Separator_def)
    ultimately have el: "elements (Separator # join_sep A @ Separator # ''.'') = [] # A @ [''.'']"
      by simp
    have "foldl (clean_step True) [] ([] # A @ [''.'']) = foldl (clean_step True) [] A"
      by (simp add: clean_step_skip)
    also have "\<dots> = rev A"
      using foldl_clean_step_plain [OF A(2), of True "[]"] by simp
    finally have "foldl (clean_step True) []
                    (elements (Separator # join_sep A @ Separator # ''.'')) = rev A"
      by (simp only: el)
    then have "Clean (Separator # join_sep A @ Separator # ''.'') = Separator # join_sep A"
      by (simp only: Clean_rooted_unfold rev_rev_ident)
    then have "Clean (Clean dest @ Separator # ''.'') = Clean dest"
      by (simp only: A(1) append_Cons)
    then have t: "Join [Clean dest, Clean n] = Clean dest"
      using join dot by simp
    have "IsAbs (Clean dest)" using assms(1) by (rule Clean_rooted)
    moreover have "Clean (Clean dest) = Clean dest"
      using A Clean_plain_rooted by simp
    ultimately have "Abs wd (Clean dest) = Some (Clean dest)"
      by (simp add: Abs_def)
    then show ?thesis using t by simp
  next
    case path
    have AC: "\<forall>e\<in>set (A @ C). plain e"
      using A(2) path(3) by auto
    have "Clean dest @ Separator # Clean n = Separator # join_sep (A @ C)"
      using A(1) path(1) path(2) Ane by (simp add: join_sep_append)
    then have t: "Join [Clean dest, Clean n] = Separator # join_sep (A @ C)"
      using join Clean_plain_rooted [OF AC] by simp
    have pre: "Separator # join_sep (A @ C) = (Clean dest @ [Separator]) @ join_sep C"
      using A(1) path(1) Ane by (simp add: join_sep_append)
    have "IsAbs (Separator # join_sep (A @ C))"
      by (simp add: IsAbs_def HasPrefix_def Separator_def)
    then have "Abs wd (Separator # join_sep (A @ C)) = Some (Separator # join_sep (A @ C))"
      using Clean_plain_rooted [OF AC] by (simp add: Abs_def)
    moreover have "HasPrefix (Separator # join_sep (A @ C)) (Clean dest @ [Separator])"
      unfolding HasPrefix_def pre by (rule prefixI) simp
    ultimately show ?thesis using t by simp
  qed
qed

lemma containment_guard_idle_off_root:
  assumes "IsAbs p" and "Clean p \<noteq> ''/''"
  shows "check_name w (Clean p) n \<noteq> Inl (OutsideDestination n)"
proof (cases "''..'' \<in> set (elements (Clean n))")
  case True
  then show ?thesis by (simp add: check_name_dotdot)
next
  case no_dotdot: False
  show ?thesis
  proof (cases "IsAbs (Clean n)")
    case True
    then show ?thesis by (simp add: check_name_def Let_def)
  next
    case False
    have "Abs (getwd w) (Join [Clean p, Clean n]) = Some (Join [Clean p, Clean n]) \<and>
         (Join [Clean p, Clean n] = Clean p \<or>
          HasPrefix (Join [Clean p, Clean n]) (Clean p @ [Separator]))"
      using assms False no_dotdot by (rule containment_passes_off_root)
    then show ?thesis
      by (auto simp: check_name_def Let_def)
  qed
qed

section \<open>The claims about extraction\<close>

text \<open>
  C3. Every tar entry of kind symbolic link or hard link makes the extraction fail with
  a path-security failure, whatever the link points to (\<open>Linkname h\<close> is arbitrary): the
  failure is the result of \<open>extractTarXz\<close>, and the calls made are those of the entries
  before the link, so the link is never created (no call of the program creates one)
  and no later entry is written.
\<close>

theorem links_never_extracted:
  assumes "Typeflag h = TypeSymlink \<or> Typeflag h = TypeLink"
    and "files w src = TarStream (pre @ Next h # rest)"
    and "Abs (getwd w) dest = Some absDest"
    and "extract_loop w absDest pre [] = (Inr (), tr)"
  shows "\<exists>e. PathSecurityViolation e \<and> extractTarXz w src dest = (Inl e, tr)"
proof -
  obtain e where "PathSecurityViolation e" "extract_entry w absDest h tr = (Inl e, tr)"
    using extract_entry_link [OF assms(1) assms(3)] by blast
  then show ?thesis
    using extractTarXz_at_entry [OF assms(2) assms(3) assms(4)] by simp
qed

theorem links_never_extracted_witness:
  "(Typeflag (link_entry ''data/lnk'' TypeSymlink ''/etc/passwd'') = TypeSymlink \<or>
    Typeflag (link_entry ''data/lnk'' TypeSymlink ''/etc/passwd'') = TypeLink) \<and>
   files (example_world
            [Next (entry ''data'' TypeDir 0),
             Next (link_entry ''data/lnk'' TypeSymlink ''/etc/passwd''),
             Next (entry ''md5sums'' TypeReg 3)] [] None) ''pkg.apg'' =
     TarStream ([Next (entry ''data'' TypeDir 0)] @
                Next (link_entry ''data/lnk'' TypeSymlink ''/etc/passwd'') #
                [Next (entry ''md5sums'' TypeReg 3)]) \<and>
   Abs (getwd (example_world
            [Next (entry ''data'' TypeDir 0),
             Next (link_entry ''data/lnk'' TypeSymlink ''/etc/passwd''),
             Next (entry ''md5sums'' TypeReg 3)] [] None)) ''/tmp/d'' = Some ''/tmp/d'' \<and>
   extract_loop (example_world
            [Next (entry ''data'' TypeDir 0),
             Next (link_entry ''data/lnk'' TypeSymlink ''/etc/passwd''),
             Next (entry ''md5sums'' TypeReg 3)] [] None) ''/tmp/d''
            [Next (entry ''data'' TypeDir 0)] [] =
     (Inr (), [MkdirAll ''/tmp/d/data'' perm_0755]) \<and>
   (\<exists>e. PathSecurityViolation e \<and>
        extractTarXz (example_world
            [Next (entry ''data'' TypeDir 0),
             Next (link_entry ''data/lnk'' TypeSymlink ''/etc/passwd''),
             Next (entry ''md5sums'' TypeReg 3)] [] None) ''pkg.apg'' ''/tmp/d'' =
          (Inl e, [MkdirAll ''/tmp/d/data'' perm_0755]))"
proof -
  have h1: "Typeflag (link_entry ''data/lnk'' TypeSymlink ''/etc/passwd'') = TypeSymlink \<or>
            Typeflag (link_entry ''data/lnk'' TypeSymlink ''/etc/passwd'') = TypeLink"
    by (simp add: link_entry_def)
  have h2: "files (example_world
            [Next (entry ''data'' TypeDir 0),
             Next (link_entry ''data/lnk'' TypeSymlink ''/etc/passwd''),
             Next (entry ''md5sums'' TypeReg 3)] [] None) ''pkg.apg'' =
     TarStream ([Next (entry ''data'' TypeDir 0)] @
                Next (link_entry ''data/lnk'' TypeSymlink ''/etc/passwd'') #
                [Next (entry ''md5sums'' TypeReg 3)])"
    by (simp add: example_world_def)
  have h3: "Abs (getwd (example_world
            [Next (entry ''data'' TypeDir 0),
             Next (link_entry ''data/lnk'' TypeSymlink ''/etc/passwd''),
             Next (entry ''md5sums'' TypeReg 3)] [] None)) ''/tmp/d'' = Some ''/tmp/d''"
    by code_simp
  have h4: "extract_loop (example_world
            [Next (entry ''data'' TypeDir 0),
             Next (link_entry ''data/lnk'' TypeSymlink ''/etc/passwd''),
             Next (entry ''md5sums'' TypeReg 3)] [] None) ''/tmp/d''
            [Next (entry ''data'' TypeDir 0)] [] =
     (Inr (), [MkdirAll ''/tmp/d/data'' perm_0755])"
    by code_simp
  show ?thesis
    using h1 h2 h3 h4 links_never_extracted [OF h1 h2 h3 h4] by blast
qed

text \<open>
  C2, as the program has it. The name of an entry is cleaned before it is tested, and
  cleaning removes a \<^verbatim>\<open>..\<close> together with the element before it. What is rejected is
  every entry whose cleaned name still has a \<^verbatim>\<open>..\<close> element, in any position: the
  extraction fails there as a path traversal attempt, and the calls made are those of
  the entries before it, so nothing is written for that entry nor for any later one.
\<close>

theorem cleaned_dotdot_rejected:
  assumes "''..'' \<in> set (elements (Clean (Name h)))"
    and "files w src = TarStream (pre @ Next h # rest)"
    and "Abs (getwd w) dest = Some absDest"
    and "extract_loop w absDest pre [] = (Inr (), tr)"
  shows "extractTarXz w src dest = (Inl (PathTraversalAttempt (Name h)), tr)"
  using extractTarXz_at_entry [OF assms(2) assms(3) assms(4)] check_name_dotdot [OF assms(1)]
  by (simp add: extract_entry_def)

theorem cleaned_dotdot_rejected_witness:
  "''..'' \<in> set (elements (Clean (Name (entry ''a/../../b'' TypeReg 3)))) \<and>
   files (example_world
            [Next (entry ''data'' TypeDir 0), Next (entry ''a/../../b'' TypeReg 3),
             Next (entry ''md5sums'' TypeReg 3)] [] None) ''pkg.apg'' =
     TarStream ([Next (entry ''data'' TypeDir 0)] @ Next (entry ''a/../../b'' TypeReg 3) #
                [Next (entry ''md5sums'' TypeReg 3)]) \<and>
   Abs (getwd (example_world
            [Next (entry ''data'' TypeDir 0), Next (entry ''a/../../b'' TypeReg 3),
             Next (entry ''md5sums'' TypeReg 3)] [] None)) ''/tmp/d'' = Some ''/tmp/d'' \<and>
   extract_loop (example_world
            [Next (entry ''data'' TypeDir 0), Next (entry ''a/../../b'' TypeReg 3),
             Next (entry ''md5sums'' TypeReg 3)] [] None) ''/tmp/d''
            [Next (entry ''data'' TypeDir 0)] [] =
     (Inr (), [MkdirAll ''/tmp/d/data'' perm_0755]) \<and>
   extractTarXz (example_world
            [Next (entry ''data'' TypeDir 0), Next (entry ''a/../../b'' TypeReg 3),
             Next (entry ''md5sums'' TypeReg 3)] [] None) ''pkg.apg'' ''/tmp/d'' =
     (Inl (PathTraversalAttempt (Name (entry ''a/../../b'' TypeReg 3))),
      [MkdirAll ''/tmp/d/data'' perm_0755])"
proof -
  have h1: "''..'' \<in> set (elements (Clean (Name (entry ''a/../../b'' TypeReg 3))))"
    by code_simp
  have h2: "files (example_world
            [Next (entry ''data'' TypeDir 0), Next (entry ''a/../../b'' TypeReg 3),
             Next (entry ''md5sums'' TypeReg 3)] [] None) ''pkg.apg'' =
     TarStream ([Next (entry ''data'' TypeDir 0)] @ Next (entry ''a/../../b'' TypeReg 3) #
                [Next (entry ''md5sums'' TypeReg 3)])"
    by (simp add: example_world_def)
  have h3: "Abs (getwd (example_world
            [Next (entry ''data'' TypeDir 0), Next (entry ''a/../../b'' TypeReg 3),
             Next (entry ''md5sums'' TypeReg 3)] [] None)) ''/tmp/d'' = Some ''/tmp/d''"
    by code_simp
  have h4: "extract_loop (example_world
            [Next (entry ''data'' TypeDir 0), Next (entry ''a/../../b'' TypeReg 3),
             Next (entry ''md5sums'' TypeReg 3)] [] None) ''/tmp/d''
            [Next (entry ''data'' TypeDir 0)] [] =
     (Inr (), [MkdirAll ''/tmp/d/data'' perm_0755])"
    by code_simp
  show ?thesis
    using h1 h2 h3 h4 cleaned_dotdot_rejected [OF h1 h2 h3 h4] by blast
qed

text \<open>
  C2, as the claim states it, fails: the name \<^verbatim>\<open>a/../b\<close> has a \<^verbatim>\<open>..\<close> element, and the
  entry is extracted, to \<^verbatim>\<open>b\<close> under the destination, and so is the entry after it.
\<close>

theorem inner_dotdot_extracted:
  "''..'' \<in> set (elements (Name (entry ''a/../b'' TypeReg 5))) \<and>
   extractTarXz
     (example_world [Next (entry ''a/../b'' TypeReg 5), Next (entry ''c'' TypeDir 0)] [] None)
     ''pkg.apg'' ''/tmp/d'' =
   (Inr (), [MkdirAll ''/tmp/d'' perm_0755, OpenFile ''/tmp/d/b'' perm_0644,
             CopyN ''/tmp/d/b'' 5, Close ''/tmp/d/b'', MkdirAll ''/tmp/d/c'' perm_0755])"
  by code_simp



text \<open>
  C10. Every entry whose cleaned name ends with the two characters \<^verbatim>\<open>..\<close> is rejected
  by the path-traversal guard, also when they only end a longer last element that is no
  \<^verbatim>\<open>..\<close> segment, as in \<^verbatim>\<open>notes..\<close> or \<^verbatim>\<open>dir/file..\<close>: the extraction fails at that
  entry and stops (the calls made are those of the entries before it). The error is the
  path traversal attempt; only for a cleaned name that is absolute it is the error of
  the test for an absolute path, which comes first in the guard.
\<close>

theorem dotdot_suffix_rejected:
  assumes "HasSuffix (Clean (Name h)) ''..''"
    and "files w src = TarStream (pre @ Next h # rest)"
    and "Abs (getwd w) dest = Some absDest"
    and "extract_loop w absDest pre [] = (Inr (), tr)"
  shows "(\<exists>e. TraversalGuardRejection e \<and> extractTarXz w src dest = (Inl e, tr)) \<and>
         extractTarXz w src dest =
           (Inl (if IsAbs (Clean (Name h)) then AbsolutePath (Name h)
                 else PathTraversalAttempt (Name h)), tr)"
proof -
  have "check_name w absDest (Name h) =
          Inl (if IsAbs (Clean (Name h)) then AbsolutePath (Name h)
               else PathTraversalAttempt (Name h))"
    using assms(1) by (simp add: check_name_def Let_def)
  then have "extractTarXz w src dest =
           (Inl (if IsAbs (Clean (Name h)) then AbsolutePath (Name h)
                 else PathTraversalAttempt (Name h)), tr)"
    using extractTarXz_at_entry [OF assms(2) assms(3) assms(4)]
    by (simp add: extract_entry_def)
  then show ?thesis
    by simp
qed

theorem dotdot_suffix_rejected_witness:
  "HasSuffix (Clean (Name (entry ''dir/file..'' TypeReg 3))) ''..'' \<and>
   \<not> IsAbs (Clean (Name (entry ''dir/file..'' TypeReg 3))) \<and>
   ''..'' \<notin> set (elements (Clean (Name (entry ''dir/file..'' TypeReg 3)))) \<and>
   files (example_world
            [Next (entry ''data'' TypeDir 0), Next (entry ''dir/file..'' TypeReg 3),
             Next (entry ''md5sums'' TypeReg 3)] [] None) ''pkg.apg'' =
     TarStream ([Next (entry ''data'' TypeDir 0)] @ Next (entry ''dir/file..'' TypeReg 3) #
                [Next (entry ''md5sums'' TypeReg 3)]) \<and>
   Abs (getwd (example_world
            [Next (entry ''data'' TypeDir 0), Next (entry ''dir/file..'' TypeReg 3),
             Next (entry ''md5sums'' TypeReg 3)] [] None)) ''/tmp/d'' = Some ''/tmp/d'' \<and>
   extract_loop (example_world
            [Next (entry ''data'' TypeDir 0), Next (entry ''dir/file..'' TypeReg 3),
             Next (entry ''md5sums'' TypeReg 3)] [] None) ''/tmp/d''
            [Next (entry ''data'' TypeDir 0)] [] =
     (Inr (), [MkdirAll ''/tmp/d/data'' perm_0755]) \<and>
   extractTarXz (example_world
            [Next (entry ''data'' TypeDir 0), Next (entry ''dir/file..'' TypeReg 3),
             Next (entry ''md5sums'' TypeReg 3)] [] None) ''pkg.apg'' ''/tmp/d'' =
     (Inl (PathTraversalAttempt ''dir/file..''), [MkdirAll ''/tmp/d/data'' perm_0755])"
proof -
  have h1: "HasSuffix (Clean (Name (entry ''dir/file..'' TypeReg 3))) ''..''"
    by code_simp
  have rel: "\<not> IsAbs (Clean (Name (entry ''dir/file..'' TypeReg 3)))"
    by code_simp
  have seg: "''..'' \<notin> set (elements (Clean (Name (entry ''dir/file..'' TypeReg 3))))"
    by code_simp
  have nm: "Name (entry ''dir/file..'' TypeReg 3) = ''dir/file..''"
    by (simp add: entry_def)
  have h2: "files (example_world
            [Next (entry ''data'' TypeDir 0), Next (entry ''dir/file..'' TypeReg 3),
             Next (entry ''md5sums'' TypeReg 3)] [] None) ''pkg.apg'' =
     TarStream ([Next (entry ''data'' TypeDir 0)] @ Next (entry ''dir/file..'' TypeReg 3) #
                [Next (entry ''md5sums'' TypeReg 3)])"
    by (simp add: example_world_def)
  have h3: "Abs (getwd (example_world
            [Next (entry ''data'' TypeDir 0), Next (entry ''dir/file..'' TypeReg 3),
             Next (entry ''md5sums'' TypeReg 3)] [] None)) ''/tmp/d'' = Some ''/tmp/d''"
    by code_simp
  have h4: "extract_loop (example_world
            [Next (entry ''data'' TypeDir 0), Next (entry ''dir/file..'' TypeReg 3),
             Next (entry ''md5sums'' TypeReg 3)] [] None) ''/tmp/d''
            [Next (entry ''data'' TypeDir 0)] [] =
     (Inr (), [MkdirAll ''/tmp/d/data'' perm_0755])"
    by code_simp
  have "extractTarXz (example_world
            [Next (entry ''data'' TypeDir 0), Next (entry ''dir/file..'' TypeReg 3),
             Next (entry ''md5sums'' TypeReg 3)] [] None) ''pkg.apg'' ''/tmp/d'' =
     (Inl (PathTraversalAttempt ''dir/file..''), [MkdirAll ''/tmp/d/data'' perm_0755])"
    using dotdot_suffix_rejected [OF h1 h2 h3 h4] rel nm by simp
  then show ?thesis
    using h1 rel seg h2 h3 h4 by blast
qed







section \<open>The checks of the metadata\<close>

lemma append_if_eq: "append_if c missingFields name = missingFields @ (if c then [name] else [])"
  by (simp add: append_if_def)

lemma spec_missing_Nil: "spec_missing [] m = []"
  by (simp add: spec_missing_def)

lemma spec_missing_Cons:
  "spec_missing (fld # flds) m =
     (if snd fld m then [fst fld] else []) @ spec_missing flds m"
  by (simp add: spec_missing_def)

lemma spec_missing_mem: "(n \<in> set (spec_missing descriptor m)) = (\<exists>t. (n, t) \<in> set descriptor \<and> t m)"
  by (force simp: spec_missing_def)

lemma missingFields_V1_spec: "missingFields_V1 meta = spec_missing spec_required_V1 meta"
  by (simp only: missingFields_V1_def spec_required_V1_def Let_def append_if_eq
        spec_missing_Cons spec_missing_Nil fst_conv snd_conv append_Nil append_Nil2 append_assoc)

lemma missingFields_V2_spec: "missingFields_V2 meta = spec_missing spec_required_V2 meta"
  by (simp only: missingFields_V2_def spec_required_V2_def Let_def append_if_eq
        spec_missing_Cons spec_missing_Nil fst_conv snd_conv append_Nil append_Nil2 append_assoc)


lemma check_required_all_exist:
  assumes "\<not> not_exist w (Join [dir, ''data''])"
    and "\<not> not_exist w (Join [dir, ''md5sums''])"
    and "\<not> not_exist w (Join [dir, ''metadata.json''])"
  shows "check_required w dir required [] =
           (None, [Stat (Join [dir, ''data'']), Stat (Join [dir, ''md5sums'']),
                   Stat (Join [dir, ''metadata.json''])])"
  using assms by (simp add: required_def Let_def)

text \<open>What the two functions return once the metadata has been decoded.\<close>

lemma checkApgFileV1_decoded:
  assumes "\<not> not_exist w (Join [dir, ''data''])"
    and "\<not> not_exist w (Join [dir, ''md5sums''])"
    and "\<not> not_exist w (Join [dir, ''metadata.json''])"
    and "read_file w (Join [dir, ''metadata.json'']) = Some fileData"
    and "Unmarshal store_V1 fileData zero_V1 = Inr meta"
  shows "fst (checkApgFileV1 w dir) =
           (if missingFields_V1 meta = [] then (None, None, ''good'')
            else (None, Some (MissingFields (missingFields_V1 meta)), ''bad''))"
  using check_required_all_exist [OF assms(1) assms(2) assms(3)] assms(4) assms(5)
  by (simp add: checkApgFileV1_def Let_def)

lemma checkApgFileV2_decoded:
  assumes "\<not> not_exist w (Join [dir, ''data''])"
    and "\<not> not_exist w (Join [dir, ''md5sums''])"
    and "\<not> not_exist w (Join [dir, ''metadata.json''])"
    and "read_file w (Join [dir, ''metadata.json'']) = Some fileData"
    and "Unmarshal store_V2 fileData zero_V2 = Inr meta"
  shows "fst (checkApgFileV2 w dir) =
           (if missingFields_V2 meta = [] then (None, None, ''good'')
            else (None, Some (MissingFields (missingFields_V2 meta)), ''bad''))"
  using check_required_all_exist [OF assms(1) assms(2) assms(3)] assms(4) assms(5)
  by (simp add: checkApgFileV2_def Let_def)

lemma checkApgFileV1_MissingFields:
  assumes "fst (checkApgFileV1 w dir) = (a, Some (MissingFields fs), s)"
  shows "\<exists>meta :: MetadataV1. fs = missingFields_V1 meta"
  using assms
  by (auto simp: checkApgFileV1_def Let_def
           split: prod.splits option.splits sum.splits if_splits)

subsection \<open>Decoding the members of the metadata object\<close>









lemma missingFields_V1_names:
  "set (missingFields_V1 m) \<subseteq>
     {''name'', ''version'', ''description'', ''maintainer'', ''homepage'',
      ''dependencies'', ''conflicts'', ''provides'', ''replaces''}"
  by (auto simp: missingFields_V1_spec spec_missing_mem spec_required_V1_def)

lemma validate_V1: "apgVersion \<noteq> 2 \<Longrightarrow> validate w dir apgVersion = checkApgFileV1 w dir"
  by (simp add: validate_def)

lemma validate_V2: "validate w dir 2 = checkApgFileV2 w dir"
  by (simp add: validate_def)

section \<open>The claims about validation\<close>

text \<open>
  C6. Once the three entries exist and the metadata has been read and decoded, every
  required field of the chosen format version is tested, and the result is either
  success, when no field is missing, or one schema error with the list of all the
  names whose field is missing or empty, in the order of the tests: the list is that of
  the schema descriptor of the version, filtered by the tests.
\<close>

theorem schema_errors_collected:
  assumes "\<not> not_exist w (Join [dir, ''data''])"
    and "\<not> not_exist w (Join [dir, ''md5sums''])"
    and "\<not> not_exist w (Join [dir, ''metadata.json''])"
    and "read_file w (Join [dir, ''metadata.json'']) = Some fileData"
  shows "(apgVersion \<noteq> 2 \<longrightarrow>
            (\<forall>meta. Unmarshal store_V1 fileData zero_V1 = Inr meta \<longrightarrow>
               fst (validate w dir apgVersion) =
                 (if spec_missing spec_required_V1 meta = [] then (None, None, ''good'')
                  else (None, Some (MissingFields (spec_missing spec_required_V1 meta)),
                        ''bad'')))) \<and>
         (apgVersion = 2 \<longrightarrow>
            (\<forall>meta. Unmarshal store_V2 fileData zero_V2 = Inr meta \<longrightarrow>
               fst (validate w dir apgVersion) =
                 (if spec_missing spec_required_V2 meta = [] then (None, None, ''good'')
                  else (None, Some (MissingFields (spec_missing spec_required_V2 meta)),
                        ''bad''))))"
proof (intro conjI impI allI)
  fix meta :: MetadataV1
  assume "apgVersion \<noteq> 2" and "Unmarshal store_V1 fileData zero_V1 = Inr meta"
  then show "fst (validate w dir apgVersion) =
                 (if spec_missing spec_required_V1 meta = [] then (None, None, ''good'')
                  else (None, Some (MissingFields (spec_missing spec_required_V1 meta)),
                        ''bad''))"
    using checkApgFileV1_decoded [OF assms, of meta]
    by (simp add: validate_V1 missingFields_V1_spec)
next
  fix meta :: MetadataV2
  assume "apgVersion = 2" and "Unmarshal store_V2 fileData zero_V2 = Inr meta"
  then show "fst (validate w dir apgVersion) =
                 (if spec_missing spec_required_V2 meta = [] then (None, None, ''good'')
                  else (None, Some (MissingFields (spec_missing spec_required_V2 meta)),
                        ''bad''))"
    using checkApgFileV2_decoded [OF assms, of meta]
    by (simp add: validate_V2 missingFields_V2_spec)
qed

theorem schema_errors_collected_witness:
  "\<not> not_exist (example_world [] [] (Some (JSONText (JObject [(''name'', JString ''hello'')]))))
        (Join [''/tmp/d'', ''data'']) \<and>
   \<not> not_exist (example_world [] [] (Some (JSONText (JObject [(''name'', JString ''hello'')]))))
        (Join [''/tmp/d'', ''md5sums'']) \<and>
   \<not> not_exist (example_world [] [] (Some (JSONText (JObject [(''name'', JString ''hello'')]))))
        (Join [''/tmp/d'', ''metadata.json'']) \<and>
   read_file (example_world [] [] (Some (JSONText (JObject [(''name'', JString ''hello'')]))))
        (Join [''/tmp/d'', ''metadata.json'']) =
     Some (JSONText (JObject [(''name'', JString ''hello'')])) \<and>
   fst (validate (example_world [] [] (Some (JSONText (JObject [(''name'', JString ''hello'')]))))
          ''/tmp/d'' 1) =
     (None,
      Some (MissingFields [''version'', ''description'', ''maintainer'', ''homepage'',
                           ''dependencies'', ''conflicts'', ''provides'', ''replaces'']),
      ''bad'') \<and>
   fst (validate (example_world [] [] (Some (JSONText (JObject [(''name'', JString ''hello'')]))))
          ''/tmp/d'' 2) =
     (None,
      Some (MissingFields [''version'', ''type'', ''description'', ''maintainer'', ''homepage'',
                           ''tags'', ''dependencies'', ''conflicts'', ''provides'',
                           ''replaces'', ''conf'']),
      ''bad'')"
proof -
  have h1: "\<not> not_exist (example_world [] []
                (Some (JSONText (JObject [(''name'', JString ''hello'')]))))
              (Join [''/tmp/d'', ''data''])"
    by code_simp
  have h2: "\<not> not_exist (example_world [] []
                (Some (JSONText (JObject [(''name'', JString ''hello'')]))))
              (Join [''/tmp/d'', ''md5sums''])"
    by code_simp
  have h3: "\<not> not_exist (example_world [] []
                (Some (JSONText (JObject [(''name'', JString ''hello'')]))))
              (Join [''/tmp/d'', ''metadata.json''])"
    by code_simp
  have h4: "read_file (example_world [] []
                (Some (JSONText (JObject [(''name'', JString ''hello'')]))))
              (Join [''/tmp/d'', ''metadata.json'']) =
            Some (JSONText (JObject [(''name'', JString ''hello'')]))"
    by (simp add: example_world_def)
  have d1: "Unmarshal store_V1 (JSONText (JObject [(''name'', JString ''hello'')])) zero_V1 =
            Inr (zero_V1\<lparr>Name' := ''hello''\<rparr>)"
    by code_simp
  have d2: "Unmarshal store_V2 (JSONText (JObject [(''name'', JString ''hello'')])) zero_V2 =
            Inr (zero_V2\<lparr>Name' := ''hello''\<rparr>)"
    by code_simp
  have m1: "spec_missing spec_required_V1 (zero_V1\<lparr>Name' := ''hello''\<rparr>) =
            [''version'', ''description'', ''maintainer'', ''homepage'',
             ''dependencies'', ''conflicts'', ''provides'', ''replaces'']"
    by code_simp
  have m2: "spec_missing spec_required_V2 (zero_V2\<lparr>Name' := ''hello''\<rparr>) =
            [''version'', ''type'', ''description'', ''maintainer'', ''homepage'',
             ''tags'', ''dependencies'', ''conflicts'', ''provides'', ''replaces'', ''conf'']"
    by code_simp
  have v1: "fst (validate (example_world [] []
                (Some (JSONText (JObject [(''name'', JString ''hello'')])))) ''/tmp/d'' 1) =
            (None,
             Some (MissingFields [''version'', ''description'', ''maintainer'', ''homepage'',
                                  ''dependencies'', ''conflicts'', ''provides'', ''replaces'']),
             ''bad'')"
    using schema_errors_collected [OF h1 h2 h3 h4, of 1] d1 m1 by simp
  have v2: "fst (validate (example_world [] []
                (Some (JSONText (JObject [(''name'', JString ''hello'')])))) ''/tmp/d'' 2) =
            (None,
             Some (MissingFields [''version'', ''type'', ''description'', ''maintainer'',
                                  ''homepage'', ''tags'', ''dependencies'', ''conflicts'',
                                  ''provides'', ''replaces'', ''conf'']),
             ''bad'')"
    using schema_errors_collected [OF h1 h2 h3 h4, of 2] d2 m2 by simp
  show ?thesis
    using h1 h2 h3 h4 v1 v2 by blast
qed



text \<open>
  C9. Every value of the format-version selector other than 2 (0, 3 and the negative
  numbers as well as 1) is validated as format version 1: the function run is
  \<open>checkApgFileV1\<close>, so the result is that of version 1, and a schema error lists only
  fields of the version 1 descriptor, never \<^verbatim>\<open>type\<close>, \<^verbatim>\<open>tags\<close> or \<^verbatim>\<open>conf\<close>.
\<close>

theorem other_versions_validate_as_v1:
  assumes "apgVersion \<noteq> 2"
  shows "validate w dir apgVersion = validate w dir 1 \<and>
         validate w dir apgVersion = checkApgFileV1 w dir \<and>
         (\<forall>a fs s. fst (validate w dir apgVersion) = (a, Some (MissingFields fs), s) \<longrightarrow>
            (\<exists>meta :: MetadataV1. fs = spec_missing spec_required_V1 meta) \<and>
            ''type'' \<notin> set fs \<and> ''tags'' \<notin> set fs \<and> ''conf'' \<notin> set fs)"
proof -
  have v1: "validate w dir apgVersion = checkApgFileV1 w dir"
    using assms by (rule validate_V1)
  have one: "validate w dir 1 = checkApgFileV1 w dir"
    by (simp add: validate_def)
  have fields: "\<forall>a fs s. fst (checkApgFileV1 w dir) = (a, Some (MissingFields fs), s) \<longrightarrow>
            (\<exists>meta :: MetadataV1. fs = spec_missing spec_required_V1 meta) \<and>
            ''type'' \<notin> set fs \<and> ''tags'' \<notin> set fs \<and> ''conf'' \<notin> set fs"
  proof (intro allI impI)
    fix a fs s
    assume "fst (checkApgFileV1 w dir) = (a, Some (MissingFields fs), s)"
    then obtain meta :: MetadataV1 where fs: "fs = missingFields_V1 meta"
      using checkApgFileV1_MissingFields by blast
    have "''type'' \<notin> set fs \<and> ''tags'' \<notin> set fs \<and> ''conf'' \<notin> set fs"
      using missingFields_V1_names [of meta] fs by auto
    then show "(\<exists>meta :: MetadataV1. fs = spec_missing spec_required_V1 meta) \<and>
            ''type'' \<notin> set fs \<and> ''tags'' \<notin> set fs \<and> ''conf'' \<notin> set fs"
      using fs missingFields_V1_spec by blast
  qed
  show ?thesis
    using v1 one fields by simp
qed

theorem other_versions_validate_as_v1_witness:
  "(0 :: 64 word) \<noteq> 2 \<and> (3 :: 64 word) \<noteq> 2 \<and> (- 1 :: 64 word) \<noteq> 2 \<and>
   validate (example_world [] [] (Some (JSONText (JObject example_members)))) ''/tmp/d'' 0 =
     validate (example_world [] [] (Some (JSONText (JObject example_members)))) ''/tmp/d'' 1 \<and>
   validate (example_world [] [] (Some (JSONText (JObject example_members)))) ''/tmp/d'' 3 =
     validate (example_world [] [] (Some (JSONText (JObject example_members)))) ''/tmp/d'' 1 \<and>
   validate (example_world [] [] (Some (JSONText (JObject example_members)))) ''/tmp/d'' (- 1) =
     validate (example_world [] [] (Some (JSONText (JObject example_members)))) ''/tmp/d'' 1 \<and>
   fst (validate (example_world [] [] (Some (JSONText (JObject example_members))))
          ''/tmp/d'' 1) =
     (None, Some (MissingFields [''dependencies'']), ''bad'') \<and>
   fst (validate (example_world [] [] (Some (JSONText (JObject example_members))))
          ''/tmp/d'' 2) =
     (None, Some (MissingFields [''type'', ''tags'', ''dependencies'', ''conf'']), ''bad'')"
proof -
  have n0: "(0 :: 64 word) \<noteq> 2" by simp
  have n3: "(3 :: 64 word) \<noteq> 2" by simp
  have nm: "(- 1 :: 64 word) \<noteq> 2" by simp
  have e1: "fst (validate (example_world [] [] (Some (JSONText (JObject example_members))))
          ''/tmp/d'' 1) =
     (None, Some (MissingFields [''dependencies'']), ''bad'')"
    by code_simp
  have e2: "fst (validate (example_world [] [] (Some (JSONText (JObject example_members))))
          ''/tmp/d'' 2) =
     (None, Some (MissingFields [''type'', ''tags'', ''dependencies'', ''conf'']), ''bad'')"
    by code_simp
  show ?thesis
    using n0 n3 nm e1 e2
      other_versions_validate_as_v1 [OF n0]
      other_versions_validate_as_v1 [OF n3]
      other_versions_validate_as_v1 [OF nm]
    by blast
qed



end
